theory Spec2Isabelle
  imports Complex_Main "HOL-Library.Multiset"
begin

section \<open>JavaScript values used by server.js\<close>

text \<open>
  Numbers. A finite double is represented by the rational it denotes; the rounding of
  IEEE-754 addition and the sign of zero are not modelled (no property below depends on
  them). \<open>NaN\<close> and the two infinities are kept, because \<open>parseFloat\<close> produces them
  and \<open>JSON.stringify\<close> turns them into \<open>null\<close>.
\<close>

datatype jsnum = NaN | PInf | NInf | Fin rat

text \<open>
  Scalar values: what a property of \<open>req.body\<close>, an \<open>id\<close> or \<open>nextId\<close> can hold.
  \<open>Undefined\<close> also stands for a property that is missing.
\<close>

datatype jsval = Undefined | Null | Bool bool | Num jsnum | Str string

text \<open>
  A measurement field of a record (\<open>bike\<close>, \<open>treadmill\<close>, \<open>rowing\<close>, \<open>totalDistance\<close>):
  a number in memory, a number or \<open>null\<close> once it has been through JSON.
\<close>

datatype numval = NumNull | NumVal jsnum

text \<open>ToBoolean, as used by \<open>!x\<close> and \<open>x || y\<close>.\<close>

fun truthy :: "jsval \<Rightarrow> bool" where
  "truthy Undefined = False"
| "truthy Null = False"
| "truthy (Bool b) = b"
| "truthy (Num n) = (n \<noteq> NaN \<and> n \<noteq> Fin 0)"
| "truthy (Str s) = (s \<noteq> [])"

text \<open>\<open>a === b\<close> on scalars: same type and same value, and \<open>NaN\<close> equals nothing.\<close>

definition strict_eq :: "jsval \<Rightarrow> jsval \<Rightarrow> bool" where
  "strict_eq a b = (a = b \<and> a \<noteq> Num NaN)"

text \<open>\<open>a + b\<close> and \<open>a - b\<close> on numbers.\<close>

fun js_add :: "jsnum \<Rightarrow> jsnum \<Rightarrow> jsnum" where
  "js_add NaN _ = NaN"
| "js_add _ NaN = NaN"
| "js_add PInf NInf = NaN"
| "js_add NInf PInf = NaN"
| "js_add PInf _ = PInf"
| "js_add _ PInf = PInf"
| "js_add NInf _ = NInf"
| "js_add _ NInf = NInf"
| "js_add (Fin a) (Fin b) = Fin (a + b)"

fun js_neg :: "jsnum \<Rightarrow> jsnum" where
  "js_neg NaN = NaN"
| "js_neg PInf = NInf"
| "js_neg NInf = PInf"
| "js_neg (Fin a) = Fin (- a)"

definition js_sub :: "jsnum \<Rightarrow> jsnum \<Rightarrow> jsnum" where
  "js_sub a b = js_add a (js_neg b)"

text \<open>ToNumber on a measurement field: \<open>null\<close> converts to \<open>0\<close>.\<close>

fun to_number :: "numval \<Rightarrow> jsnum" where
  "to_number NumNull = Fin 0"
| "to_number (NumVal n) = n"

text \<open>
  \<open>nextId + 1\<close>: numeric addition, except that a string operand makes \<open>+\<close> a
  concatenation with \<open>"1"\<close>.
\<close>

fun plus_one :: "jsval \<Rightarrow> jsval" where
  "plus_one (Num n) = Num (js_add n (Fin 1))"
| "plus_one (Str s) = Str (s @ ''1'')"
| "plus_one (Bool b) = Num (Fin (if b then 2 else 1))"
| "plus_one Null = Num (Fin 1)"
| "plus_one Undefined = Num NaN"

subsection \<open>parseFloat\<close>

text \<open>
  \<open>parseFloat(x)\<close> converts \<open>x\<close> to a string, skips leading white space and reads the
  longest prefix that is a decimal literal: an optional sign, then \<open>Infinity\<close> or
  digits with an optional fraction and an optional exponent. No such prefix gives \<open>NaN\<close>.
\<close>

definition is_digit :: "char \<Rightarrow> bool" where
  "is_digit c = (c \<in> set ''0123456789'')"

definition is_space :: "char \<Rightarrow> bool" where
  "is_space c = (c \<in> {CHR '' '', CHR 0x09, CHR 0x0A, CHR 0x0B, CHR 0x0C, CHR 0x0D})"

definition digit_val :: "char \<Rightarrow> nat" where
  "digit_val c = of_char c - 48"

definition digits_val :: "string \<Rightarrow> nat" where
  "digits_val ds = foldl (\<lambda>acc c. 10 * acc + digit_val c) 0 ds"

text \<open>The exponent part \<open>e[+-]?digits\<close>, read only when at least one digit follows.\<close>

definition read_exponent :: "string \<Rightarrow> int" where
  "read_exponent s =
     (case s of
        [] \<Rightarrow> 0
      | c # r \<Rightarrow>
          if c = CHR ''e'' \<or> c = CHR ''E'' then
            (case r of
               [] \<Rightarrow> 0
             | d # r' \<Rightarrow>
                 if d = CHR ''-'' then - int (digits_val (takeWhile is_digit r'))
                 else if d = CHR ''+'' then int (digits_val (takeWhile is_digit r'))
                 else int (digits_val (takeWhile is_digit r)))
          else 0)"

definition pow10 :: "int \<Rightarrow> rat" where
  "pow10 e = (if 0 \<le> e then 10 ^ nat e else 1 / 10 ^ nat (- e))"

definition read_unsigned :: "string \<Rightarrow> jsnum" where
  "read_unsigned s =
     (if take 8 s = ''Infinity'' then PInf
      else
        let ip = takeWhile is_digit s;
            r1 = dropWhile is_digit s;
            fp = (case r1 of [] \<Rightarrow> [] | c # r \<Rightarrow> if c = CHR ''.'' then takeWhile is_digit r else []);
            r2 = (case r1 of [] \<Rightarrow> [] | c # r \<Rightarrow> if c = CHR ''.'' then dropWhile is_digit r else r1)
        in if ip = [] \<and> fp = [] then NaN
           else Fin (of_nat (digits_val (ip @ fp)) / 10 ^ length fp * pow10 (read_exponent r2)))"

definition parse_float_string :: "string \<Rightarrow> jsnum" where
  "parse_float_string s =
     (case dropWhile is_space s of
        [] \<Rightarrow> NaN
      | c # r \<Rightarrow>
          if c = CHR ''-'' then js_neg (read_unsigned r)
          else if c = CHR ''+'' then read_unsigned r
          else read_unsigned (c # r))"

text \<open>
  On a value that is not a string, \<open>parseFloat\<close> reads the value's string form: a number
  reads back as itself, \<open>"true"\<close>, \<open>"false"\<close>, \<open>"null"\<close> and \<open>"undefined"\<close> give \<open>NaN\<close>.
\<close>

fun parseFloat :: "jsval \<Rightarrow> jsnum" where
  "parseFloat (Str s) = parse_float_string s"
| "parseFloat (Num n) = n"
| "parseFloat _ = NaN"

subsection \<open>JSON\<close>

text \<open>
  What \<open>JSON.parse(JSON.stringify(v))\<close> gives back: \<open>NaN\<close> and the infinities are
  written as \<open>null\<close>; every other scalar is reproduced (an undefined property is
  omitted and so is undefined again when read).
\<close>

fun json_num :: "numval \<Rightarrow> numval" where
  "json_num (NumVal (Fin q)) = NumVal (Fin q)"
| "json_num _ = NumNull"

fun json_val :: "jsval \<Rightarrow> jsval" where
  "json_val (Num (Fin q)) = Num (Fin q)"
| "json_val (Num _) = Null"
| "json_val v = v"

section \<open>Data model\<close>

text \<open>A Record, with the fields the submit handler gives it.\<close>

record race_record =
  rec_id :: jsval
  name :: jsval
  gender :: jsval
  bike :: numval
  treadmill :: numval
  rowing :: numval
  totalDistance :: numval
  photoPath :: string
  submittedAt :: string

definition json_record :: "race_record \<Rightarrow> race_record" where
  "json_record r =
     \<lparr> rec_id = json_val (rec_id r), name = json_val (name r), gender = json_val (gender r),
       bike = json_num (bike r), treadmill = json_num (treadmill r), rowing = json_num (rowing r),
       totalDistance = json_num (totalDistance r),
       photoPath = photoPath r, submittedAt = submittedAt r \<rparr>"

text \<open>
  The parsed form of \<open>data/records.json\<close>. The model covers documents whose \<open>records\<close>
  property is missing or an array of records; \<open>nextId\<close> and \<open>lastUpdated\<close> are any
  scalar (\<open>Undefined\<close> when missing).
\<close>

record document =
  doc_records :: "race_record list option"
  doc_nextId :: jsval
  doc_lastUpdated :: jsval

text \<open>
  The content of the data file, up to \<open>JSON.parse\<close>: text that does not parse, the
  text \<open>null\<close>, or a document.
\<close>

datatype content = Malformed | JsonNull | JsonDoc document

text \<open>The two files: the lock marker (holding a pid) and the data file.\<close>

record files =
  lock_file :: "string option"
  data_file :: "content option"

datatype js_error =
    LockTimeout          \<comment> \<open>\<open>new Error('Failed to acquire file lock')\<close>\<close>
  | IOError string       \<comment> \<open>an error thrown by \<open>fs\<close>, with its code\<close>
  | SyntaxError          \<comment> \<open>thrown by \<open>JSON.parse\<close>\<close>
  | TypeError            \<comment> \<open>property access on \<open>null\<close>\<close>

text \<open>
  What the code does not decide: the clock, the process id, the failures of the
  file-system calls, and what other processes do to the two files while this caller
  sleeps between two attempts to take the lock.
\<close>

record env =
  now :: string
  pid :: string
  lock_fault :: "nat \<Rightarrow> string option"
  others :: "nat \<Rightarrow> files \<Rightarrow> files"
  read_fault :: "string option"
  write_fault :: "string option"
  unlink_fault :: "string option"

section \<open>FileLock\<close>

record FileLock =
  isLocked :: bool

definition maxRetries :: nat where
  "maxRetries = 50"

definition retryDelay :: nat where
  "retryDelay = 100"

datatype attempt = Created files | Exists | Thrown js_error

text \<open>\<open>fs.writeFileSync(lockFile, pid, { flag: 'wx' })\<close>: create only if absent.\<close>

definition create_marker :: "env \<Rightarrow> nat \<Rightarrow> files \<Rightarrow> attempt" where
  "create_marker e i fs =
     (case lock_fault e i of
        Some code \<Rightarrow> Thrown (IOError code)
      | None \<Rightarrow>
          (case lock_file fs of
             Some _ \<Rightarrow> Exists
           | None \<Rightarrow> Created (fs\<lparr>lock_file := Some (pid e)\<rparr>)))"

text \<open>
  The retry loop of \<open>acquire\<close>, from attempt \<open>i\<close>. The result is the outcome, the lock
  object, the files, and the milliseconds spent sleeping.
\<close>

function acquire_from ::
  "env \<Rightarrow> nat \<Rightarrow> FileLock \<Rightarrow> files \<Rightarrow> nat \<Rightarrow> (js_error + unit) \<times> FileLock \<times> files \<times> nat" where
  "acquire_from e i l fs ms =
     (if i < maxRetries then
        (case create_marker e i fs of
           Created fs' \<Rightarrow> (Inr (), l\<lparr>isLocked := True\<rparr>, fs', ms)
         | Exists \<Rightarrow> acquire_from e (Suc i) l (others e i fs) (ms + retryDelay)
         | Thrown err \<Rightarrow> (Inl err, l, fs, ms))
      else (Inl LockTimeout, l, fs, ms))"
  by pat_completeness auto
termination
  by (relation "measure (\<lambda>(e, i, l, fs, ms). maxRetries - i)") auto

declare acquire_from.simps [simp del]

definition acquire :: "env \<Rightarrow> FileLock \<Rightarrow> files \<Rightarrow> (js_error + unit) \<times> FileLock \<times> files \<times> nat" where
  "acquire e l fs = acquire_from e 0 l fs 0"

text \<open>\<open>fs.unlinkSync(lockFile)\<close>: fails when told to, or when there is no such file.\<close>

definition unlinkSync :: "env \<Rightarrow> files \<Rightarrow> js_error + files" where
  "unlinkSync e fs =
     (case unlink_fault e of
        Some code \<Rightarrow> Inl (IOError code)
      | None \<Rightarrow>
          (case lock_file fs of
             None \<Rightarrow> Inl (IOError ''ENOENT'')
           | Some _ \<Rightarrow> Inr (fs\<lparr>lock_file := None\<rparr>)))"

definition release :: "env \<Rightarrow> FileLock \<Rightarrow> files \<Rightarrow> FileLock \<times> files" where
  "release e l fs =
     (if isLocked l then
        (case unlinkSync e fs of
           Inr fs' \<Rightarrow> (l\<lparr>isLocked := False\<rparr>, fs')
         | Inl err \<Rightarrow> (l, fs))
      else (l, fs))"

section \<open>RecordStore\<close>

record store =
  records :: "race_record list"
  nextId :: jsval

definition empty_store :: store where
  "empty_store = \<lparr> records = [], nextId = Num (Fin 1) \<rparr>"

definition existsSync :: "files \<Rightarrow> bool" where
  "existsSync fs = (data_file fs \<noteq> None)"

definition readFileSync :: "env \<Rightarrow> files \<Rightarrow> js_error + content" where
  "readFileSync e fs =
     (case read_fault e of
        Some code \<Rightarrow> Inl (IOError code)
      | None \<Rightarrow>
          (case data_file fs of
             None \<Rightarrow> Inl (IOError ''ENOENT'')
           | Some c \<Rightarrow> Inr c))"

definition JSON_parse :: "content \<Rightarrow> js_error + content" where
  "JSON_parse c = (case c of Malformed \<Rightarrow> Inl SyntaxError | _ \<Rightarrow> Inr c)"

text \<open>
  \<open>{ records: parsed.records || [], nextId: parsed.nextId || 1 }\<close>. Reading a property
  of \<open>null\<close> throws; an array is always truthy, so only a missing \<open>records\<close> takes the
  default.
\<close>

definition parsed_fields :: "content \<Rightarrow> js_error + store" where
  "parsed_fields c =
     (case c of
        JsonDoc d \<Rightarrow>
          Inr \<lparr> records = (case doc_records d of None \<Rightarrow> [] | Some rs \<Rightarrow> rs),
                nextId = (if truthy (doc_nextId d) then doc_nextId d else Num (Fin 1)) \<rparr>
      | _ \<Rightarrow> Inl TypeError)"

text \<open>The body of the \<open>try\<close> block; \<open>None\<close> when the \<open>if\<close> is not taken.\<close>

definition readRecords_try :: "env \<Rightarrow> files \<Rightarrow> js_error + store option" where
  "readRecords_try e fs =
     (if existsSync fs then
        (case readFileSync e fs of
           Inl err \<Rightarrow> Inl err
         | Inr data \<Rightarrow>
             (case JSON_parse data of
                Inl err \<Rightarrow> Inl err
              | Inr parsed \<Rightarrow>
                  (case parsed_fields parsed of
                     Inl err \<Rightarrow> Inl err
                   | Inr st \<Rightarrow> Inr (Some st))))
      else Inr None)"

text \<open>
  \<open>readRecords\<close>: the \<open>catch\<close> logs and falls through to the final \<open>return\<close>. The result
  is a sum like that of every other call, so that "does not throw" is a statement.
\<close>

definition readRecords :: "env \<Rightarrow> files \<Rightarrow> js_error + store" where
  "readRecords e fs =
     (case readRecords_try e fs of
        Inr (Some st) \<Rightarrow> Inr st
      | Inr None \<Rightarrow> Inr empty_store
      | Inl err \<Rightarrow> Inr empty_store)"

text \<open>
  \<open>JSON.stringify({ records, nextId, lastUpdated })\<close>, as the document it parses back to.
\<close>

definition stringify :: "race_record list \<Rightarrow> jsval \<Rightarrow> string \<Rightarrow> content" where
  "stringify recs nid stamp =
     JsonDoc \<lparr> doc_records = Some (map json_record recs), doc_nextId = json_val nid,
               doc_lastUpdated = Str stamp \<rparr>"

text \<open>
  \<open>fs.writeFileSync(DATA_FILE, text, 'utf8')\<close>. A failing call throws before the content
  is replaced; a write torn by the operating system is outside this model.
\<close>

definition writeFileSync :: "env \<Rightarrow> files \<Rightarrow> content \<Rightarrow> js_error + files" where
  "writeFileSync e fs c =
     (case write_fault e of
        Some code \<Rightarrow> Inl (IOError code)
      | None \<Rightarrow> Inr (fs\<lparr>data_file := Some c\<rparr>))"

text \<open>
  \<open>writeRecords\<close>: \<open>try { acquire; write } catch { rethrow } finally { release }\<close>.
\<close>

definition writeRecords ::
  "env \<Rightarrow> files \<Rightarrow> race_record list \<Rightarrow> jsval \<Rightarrow> (js_error + unit) \<times> files" where
  "writeRecords e fs recs nid =
     (case acquire e \<lparr> isLocked = False \<rparr> fs of
        (got, l, fs1, ms) \<Rightarrow>
          (case (case got of
                   Inl err \<Rightarrow> (Inl err, fs1)
                 | Inr _ \<Rightarrow>
                     (case writeFileSync e fs1 (stringify recs nid (now e)) of
                        Inl err \<Rightarrow> (Inl err, fs1)
                      | Inr fs2 \<Rightarrow> (Inr (), fs2))) of
             (res, fs3) \<Rightarrow> (res, snd (release e l fs3))))"

section \<open>Record submission\<close>

record request =
  body_name :: jsval
  body_gender :: jsval
  body_bike :: jsval
  body_treadmill :: jsval
  body_rowing :: jsval
  file_path :: "string option"

text \<open>The record literal of the handler; both readings of the clock are \<open>now e\<close>.\<close>

definition new_record :: "env \<Rightarrow> request \<Rightarrow> string \<Rightarrow> jsval \<Rightarrow> race_record" where
  "new_record e rq path nid =
     \<lparr> rec_id = nid, name = body_name rq, gender = body_gender rq,
       bike = NumVal (parseFloat (body_bike rq)),
       treadmill = NumVal (parseFloat (body_treadmill rq)),
       rowing = NumVal (parseFloat (body_rowing rq)),
       totalDistance =
         NumVal (js_add (js_add (parseFloat (body_bike rq)) (parseFloat (body_treadmill rq)))
                        (parseFloat (body_rowing rq))),
       photoPath = path, submittedAt = now e \<rparr>"

text \<open>
  Lines 212 to 231 of the handler: read, build the record, push it, write. The result is
  the record and the in-memory array after the push.
\<close>

definition append_record ::
  "env \<Rightarrow> request \<Rightarrow> string \<Rightarrow> files \<Rightarrow> (js_error + race_record \<times> race_record list) \<times> files" where
  "append_record e rq path fs =
     (case readRecords e fs of
        Inl err \<Rightarrow> (Inl err, fs)
      | Inr st \<Rightarrow>
          (let r = new_record e rq path (nextId st);
               recs = records st @ [r]
           in case writeRecords e fs recs (plus_one (nextId st)) of
                (Inl err, fs') \<Rightarrow> (Inl err, fs')
              | (Inr _, fs') \<Rightarrow> (Inr (r, recs), fs')))"

subsection \<open>Sorting by total distance\<close>

fun positive :: "jsnum \<Rightarrow> bool" where
  "positive PInf = True"
| "positive (Fin q) = (0 < q)"
| "positive _ = False"

text \<open>
  \<open>Array.prototype.sort(cmp)\<close> is a stable sort: \<open>a\<close> goes after \<open>b\<close> only when
  \<open>cmp(a, b) > 0\<close>, and a \<open>NaN\<close> from the comparator counts as \<open>0\<close>. It is modelled by
  insertion from the right, which keeps elements that compare equal in their order.
\<close>

fun insert_sorted :: "('a \<Rightarrow> 'a \<Rightarrow> jsnum) \<Rightarrow> 'a \<Rightarrow> 'a list \<Rightarrow> 'a list" where
  "insert_sorted cmp x [] = [x]"
| "insert_sorted cmp x (y # ys) =
     (if positive (cmp x y) then y # insert_sorted cmp x ys else x # y # ys)"

definition js_sort :: "('a \<Rightarrow> 'a \<Rightarrow> jsnum) \<Rightarrow> 'a list \<Rightarrow> 'a list" where
  "js_sort cmp xs = foldr (insert_sorted cmp) xs []"

text \<open>\<open>(a, b) => b.totalDistance - a.totalDistance\<close>\<close>

definition by_total :: "race_record \<Rightarrow> race_record \<Rightarrow> jsnum" where
  "by_total a b = js_sub (to_number (totalDistance b)) (to_number (totalDistance a))"

fun findIndex :: "('a \<Rightarrow> bool) \<Rightarrow> 'a list \<Rightarrow> int" where
  "findIndex p [] = - 1"
| "findIndex p (x # xs) =
     (if p x then 0 else (let i = findIndex p xs in if i < 0 then - 1 else i + 1))"

text \<open>The two localized labels: \<open>Namseong\<close> is the label for male, \<open>Yeoseong\<close> for female.\<close>

datatype gender_label = Namseong | Yeoseong

record submit_data =
  currentRank :: int
  totalParticipants :: nat
  genderParticipants :: nat
  label :: gender_label

datatype response =
    MissingFields      \<comment> \<open>status 400, all fields are required\<close>
  | MissingPhoto       \<comment> \<open>status 400, the photo is required\<close>
  | ServerError        \<comment> \<open>status 500\<close>
  | Submitted submit_data

definition submit_record :: "env \<Rightarrow> request \<Rightarrow> files \<Rightarrow> response \<times> files" where
  "submit_record e rq fs =
     (if \<not> truthy (body_name rq) \<or> \<not> truthy (body_gender rq) \<or> \<not> truthy (body_bike rq)
         \<or> \<not> truthy (body_treadmill rq) \<or> \<not> truthy (body_rowing rq)
      then (MissingFields, fs)
      else
        (case file_path rq of
           None \<Rightarrow> (MissingPhoto, fs)
         | Some path \<Rightarrow>
             (case append_record e rq path fs of
                (Inl err, fs') \<Rightarrow> (ServerError, fs')
              | (Inr (r, recs), fs') \<Rightarrow>
                  (let sameGenderRecords =
                         js_sort by_total (filter (\<lambda>x. strict_eq (gender x) (body_gender rq)) recs)
                   in (Submitted
                         \<lparr> currentRank =
                             findIndex (\<lambda>x. strict_eq (rec_id x) (rec_id r)) sameGenderRecords + 1,
                           totalParticipants = length recs,
                           genderParticipants = length sameGenderRecords,
                           label = (if strict_eq (body_gender rq) (Str ''male'')
                                    then Namseong else Yeoseong) \<rparr>,
                       fs')))))"

section \<open>The environment of a call\<close>

text \<open>The files after the first \<open>n\<close> sleeps of one \<open>acquire\<close>: only other processes act.\<close>

fun after_waits :: "env \<Rightarrow> nat \<Rightarrow> files \<Rightarrow> files" where
  "after_waits e 0 fs = fs"
| "after_waits e (Suc n) fs = others e n (after_waits e n fs)"

text \<open>Attempt \<open>i\<close> meets a creation conflict: the marker is there, and nothing else fails.\<close>

definition conflict :: "env \<Rightarrow> files \<Rightarrow> nat \<Rightarrow> bool" where
  "conflict e fs i = (lock_fault e i = None \<and> lock_file (after_waits e i fs) \<noteq> None)"

text \<open>An environment without failures in which no other process touches the files.\<close>

definition quiet :: env where
  "quiet = \<lparr> now = ''2024-05-01T10:00:00.000Z'', pid = ''4711'', lock_fault = (\<lambda>i. None),
             others = (\<lambda>i fs. fs), read_fault = None, write_fault = None, unlink_fault = None \<rparr>"

text \<open>The same, except that the holder of the marker removes it during the second sleep.\<close>

definition freed_later :: env where
  "freed_later = quiet\<lparr> others := (\<lambda>i fs. if i = 1 then fs\<lparr>lock_file := None\<rparr> else fs) \<rparr>"

definition no_files :: files where
  "no_files = \<lparr> lock_file = None, data_file = None \<rparr>"

definition held_files :: files where
  "held_files = \<lparr> lock_file = Some ''99'', data_file = None \<rparr>"

section \<open>Valid stores\<close>

text \<open>
  The Store of the data model, in the specification's words: every record has an integer
  id, a name, a gender that is male or female and non-negative measurements, and \<open>nextId\<close>
  is an integer that is at least 1.
\<close>

fun finite_nonneg :: "numval \<Rightarrow> bool" where
  "finite_nonneg (NumVal (Fin q)) = (0 \<le> q)"
| "finite_nonneg _ = False"

fun is_string :: "jsval \<Rightarrow> bool" where
  "is_string (Str s) = True"
| "is_string _ = False"

fun positive_integer :: "jsval \<Rightarrow> bool" where
  "positive_integer (Num (Fin q)) = (1 \<le> q \<and> of_int \<lfloor>q\<rfloor> = q)"
| "positive_integer _ = False"

definition well_formed :: "race_record \<Rightarrow> bool" where
  "well_formed r =
     (positive_integer (rec_id r) \<and> is_string (name r)
      \<and> (gender r = Str ''male'' \<or> gender r = Str ''female'')
      \<and> finite_nonneg (bike r) \<and> finite_nonneg (treadmill r) \<and> finite_nonneg (rowing r)
      \<and> finite_nonneg (totalDistance r))"

definition valid_store :: "race_record list \<Rightarrow> jsval \<Rightarrow> bool" where
  "valid_store recs nid = (list_all well_formed recs \<and> positive_integer nid)"

text \<open>Example data.\<close>

definition alice :: race_record where
  "alice = \<lparr> rec_id = Num (Fin 1), name = Str ''Alice'', gender = Str ''female'',
             bike = NumVal (Fin 5), treadmill = NumVal (Fin (5 / 2)), rowing = NumVal (Fin 1),
             totalDistance = NumVal (Fin (17 / 2)), photoPath = ''uploads/a.png'',
             submittedAt = ''2024-04-30T09:00:00.000Z'' \<rparr>"

definition alice_doc :: content where
  "alice_doc = JsonDoc \<lparr> doc_records = Some [alice], doc_nextId = Num (Fin 2),
                        doc_lastUpdated = Str ''2024-04-30T09:00:00.000Z'' \<rparr>"

definition alice_files :: files where
  "alice_files = \<lparr> lock_file = None, data_file = Some alice_doc \<rparr>"


section \<open>Sequential appends and the invariant of a record\<close>

text \<open>What a \<open>readRecords\<close> that can read the file returns.\<close>

definition current :: "files \<Rightarrow> store" where
  "current fs = (case readRecords quiet fs of Inr st \<Rightarrow> st | Inl err \<Rightarrow> empty_store)"

text \<open>The read of a call does not fail and no other process touches the files during it.\<close>

definition undisturbed :: "env \<Rightarrow> bool" where
  "undisturbed e = (read_fault e = None \<and> (\<forall>i fs. others e i fs = fs))"

text \<open>The first attempt at the marker, the write and the removal of the marker do not fail.\<close>

definition faultless :: "env \<Rightarrow> bool" where
  "faultless e = (lock_fault e 0 = None \<and> write_fault e = None \<and> unlink_fault e = None)"

text \<open>Appends made one after the other, each with its own environment, request and photo path.\<close>

fun append_many ::
  "(env \<times> request \<times> string) list \<Rightarrow> files \<Rightarrow>
     (js_error + race_record \<times> race_record list) list \<times> files" where
  "append_many [] fs = ([], fs)"
| "append_many ((e, rq, path) # calls) fs =
     (case append_record e rq path fs of
        (res, fs') \<Rightarrow> (case append_many calls fs' of (ress, fs'') \<Rightarrow> (res # ress, fs'')))"





text \<open>The records of the document on disk.\<close>

definition stored :: "files \<Rightarrow> race_record list" where
  "stored fs = records (current fs)"

text \<open>Example requests and the files they lead to.\<close>

definition bob_request :: request where
  "bob_request = \<lparr> body_name = Str ''Bob'', body_gender = Str ''male'', body_bike = Str ''10.5'',
       body_treadmill = Str ''3'', body_rowing = Str ''2.25'', file_path = Some ''uploads/b.png'' \<rparr>"


definition zero_request :: request where
  "zero_request = bob_request\<lparr> body_bike := Str ''0'' \<rparr>"

definition carol_request :: request where
  "carol_request = \<lparr> body_name = Str ''Carol'', body_gender = Str ''female'', body_bike = Str ''7'',
       body_treadmill = Str ''1.5'', body_rowing = Str ''4'', file_path = Some ''uploads/c.png'' \<rparr>"

definition two_calls :: "(env \<times> request \<times> string) list" where
  "two_calls = [(quiet, bob_request, ''uploads/b.png''), (quiet, carol_request, ''uploads/c.png'')]"



section \<open>Validation\<close>

text \<open>The negation of the test \<open>!name || !gender || !bike || !treadmill || !rowing\<close>.\<close>

definition all_truthy :: "request \<Rightarrow> bool" where
  "all_truthy rq = (truthy (body_name rq) \<and> truthy (body_gender rq) \<and> truthy (body_bike rq)
      \<and> truthy (body_treadmill rq) \<and> truthy (body_rowing rq))"

section \<open>RankingEngine\<close>


















section \<open>Concurrent callers\<close>

text \<open>Where a caller stands in lines 212 to 231 of the handler and in \<open>writeRecords\<close>:
  before the read; in the retry loop of \<open>acquire\<close> at attempt \<open>i\<close>, with the record, the
  array after the push and \<open>nextId + 1\<close> it computed from its read; holding the lock,
  before the write; in the \<open>finally\<close> block, before \<open>release\<close>; done.\<close>

datatype pc =
    Start
  | Acquiring nat race_record "race_record list" jsval
  | Writing race_record "race_record list" jsval
  | Releasing bool "js_error + race_record"
  | Finished "js_error + race_record"

record caller =
  c_env :: env
  c_request :: request
  c_path :: string
  c_pc :: pc

text \<open>One step of a caller is one synchronous file-system call of the source. Between two
  steps of a caller, callers in other processes that share the data directory may take
  steps of their own (the marker file with its pid exists for them); within one process
  the same happens whenever \<open>acquire\<close> sleeps.\<close>

definition step :: "caller \<Rightarrow> files \<Rightarrow> caller \<times> files" where
  "step c fs =
     (case c_pc c of
        Start \<Rightarrow>
          (case readRecords (c_env c) fs of
             Inl err \<Rightarrow> (c\<lparr>c_pc := Finished (Inl err)\<rparr>, fs)
           | Inr st \<Rightarrow>
               (let r = new_record (c_env c) (c_request c) (c_path c) (nextId st)
                in (c\<lparr>c_pc := Acquiring 0 r (records st @ [r]) (plus_one (nextId st))\<rparr>, fs)))
      | Acquiring i r recs nid \<Rightarrow>
          (if i < maxRetries then
             (case create_marker (c_env c) i fs of
                Created fs' \<Rightarrow> (c\<lparr>c_pc := Writing r recs nid\<rparr>, fs')
              | Exists \<Rightarrow> (c\<lparr>c_pc := Acquiring (Suc i) r recs nid\<rparr>, fs)
              | Thrown err \<Rightarrow> (c\<lparr>c_pc := Releasing False (Inl err)\<rparr>, fs))
           else (c\<lparr>c_pc := Releasing False (Inl LockTimeout)\<rparr>, fs))
      | Writing r recs nid \<Rightarrow>
          (case writeFileSync (c_env c) fs (stringify recs nid (now (c_env c))) of
             Inl err \<Rightarrow> (c\<lparr>c_pc := Releasing True (Inl err)\<rparr>, fs)
           | Inr fs' \<Rightarrow> (c\<lparr>c_pc := Releasing True (Inr r)\<rparr>, fs'))
      | Releasing locked res \<Rightarrow>
          (c\<lparr>c_pc := Finished res\<rparr>, snd (release (c_env c) \<lparr> isLocked = locked \<rparr> fs))
      | Finished res \<Rightarrow> (c, fs))"

text \<open>A schedule names, step by step, the caller that moves.\<close>

fun run :: "nat list \<Rightarrow> caller list \<times> files \<Rightarrow> caller list \<times> files" where
  "run [] s = s"
| "run (i # sched) (cs, fs) =
     (if i < length cs
      then (case step (cs ! i) fs of (c', fs') \<Rightarrow> run sched (cs[i := c'], fs'))
      else run sched (cs, fs))"

definition caller_of :: "env \<Rightarrow> request \<Rightarrow> string \<Rightarrow> caller" where
  "caller_of e rq path = \<lparr> c_env = e, c_request = rq, c_path = path, c_pc = Start \<rparr>"

text \<open>Where each caller stands at the end.\<close>

definition results :: "caller list \<times> files \<Rightarrow> pc list" where
  "results s = map c_pc (fst s)"

text \<open>Two submissions, and two schedules for them.\<close>

definition bob_and_carol :: "caller list" where
  "bob_and_carol = [caller_of quiet bob_request ''uploads/b.png'',
                    caller_of quiet carol_request ''uploads/c.png'']"

definition both_read_first :: "nat list" where
  "both_read_first = [0, 1, 0, 0, 0, 1, 1, 1]"

definition one_after_the_other :: "nat list" where
  "one_after_the_other = [0, 0, 0, 0, 1, 1, 1, 1]"

section \<open>Properties of FileLock\<close>

lemma acquire_from_conflicts:
  "i \<le> k \<Longrightarrow> k \<le> maxRetries \<Longrightarrow> \<forall>j. i \<le> j \<and> j < k \<longrightarrow> conflict e fs j \<Longrightarrow>
   acquire_from e i l (after_waits e i fs) ms =
   acquire_from e k l (after_waits e k fs) (ms + (k - i) * retryDelay)"
proof (induction "k - i" arbitrary: i ms)
  case 0
  then show ?case by simp
next
  case (Suc d)
  then have lt: "i < k" and c: "conflict e fs i" by auto
  then have "i < maxRetries" using Suc.prems by simp
  with c have "acquire_from e i l (after_waits e i fs) ms =
      acquire_from e (Suc i) l (after_waits e (Suc i) fs) (ms + retryDelay)"
    by (subst acquire_from.simps) (auto simp: conflict_def create_marker_def)
  also have "\<dots> = acquire_from e k l (after_waits e k fs) (ms + retryDelay + (k - Suc i) * retryDelay)"
    using Suc by (intro Suc.hyps(1)) auto
  also have "ms + retryDelay + (k - Suc i) * retryDelay = ms + (k - i) * retryDelay"
    using lt by (cases "k - i") (auto simp: Suc_diff_Suc)
  finally show ?case .
qed

lemma acquire_from_end:
  "acquire_from e maxRetries l fs ms = (Inl LockTimeout, l, fs, ms)"
  by (subst acquire_from.simps) simp

lemma acquire_from_free:
  "k < maxRetries \<Longrightarrow> lock_fault e k = None \<Longrightarrow> lock_file fs = None \<Longrightarrow>
   acquire_from e k l fs ms = (Inr (), l\<lparr>isLocked := True\<rparr>, fs\<lparr>lock_file := Some (pid e)\<rparr>, ms)"
  by (subst acquire_from.simps) (simp add: create_marker_def)

lemma acquire_timeout:
  assumes "\<forall>j<maxRetries. conflict e fs j"
  shows "acquire e l fs = (Inl LockTimeout, l, after_waits e maxRetries fs, maxRetries * retryDelay)"
  using acquire_from_conflicts [of 0 maxRetries e fs l 0] assms
  by (simp add: acquire_def acquire_from_end)

lemma acquire_success:
  assumes "k < maxRetries" "\<forall>j<k. conflict e fs j" "lock_fault e k = None"
    "lock_file (after_waits e k fs) = None"
  shows "acquire e l fs = (Inr (), l\<lparr>isLocked := True\<rparr>,
           (after_waits e k fs)\<lparr>lock_file := Some (pid e)\<rparr>, k * retryDelay)"
  using acquire_from_conflicts [of 0 k e fs l 0] assms
  by (simp add: acquire_def acquire_from_free)

lemma writeRecords_timeout:
  assumes "\<forall>j<maxRetries. conflict e fs j"
  shows "writeRecords e fs recs nid = (Inl LockTimeout, after_waits e maxRetries fs)"
  by (simp add: writeRecords_def acquire_timeout [OF assms] release_def)

lemma after_waits_quiet: "after_waits quiet n fs = fs"
  by (induction n) (simp_all add: quiet_def)

lemma conflict_quiet_held: "conflict quiet held_files j"
  by (simp add: conflict_def after_waits_quiet) (simp add: quiet_def held_files_def)

text \<open>
  C3. \<open>acquire\<close> creates the marker only if it is absent. While attempts meet a creation
  conflict it sleeps 100 ms after each and tries again; the first attempt \<open>k < 50\<close> that
  finds the marker absent takes the lock after \<open>k\<close> sleeps. When all 50 attempts meet a
  conflict it fails with LockTimeout after 5000 ms, the lock object is unchanged and this
  caller has changed no file: the files are what the other processes left, and
  \<open>writeRecords\<close> fails with the same error without touching the document.
\<close>

theorem acquire_retries_then_times_out:
  "(k < 50 \<and> (\<forall>j<k. conflict e fs j) \<and> lock_fault e k = None
      \<and> lock_file (after_waits e k fs) = None \<longrightarrow>
      acquire e l fs =
        (Inr (), l\<lparr>isLocked := True\<rparr>, (after_waits e k fs)\<lparr>lock_file := Some (pid e)\<rparr>, k * 100))
   \<and> ((\<forall>j<50. conflict e fs j) \<longrightarrow>
        acquire e l fs = (Inl LockTimeout, l, after_waits e 50 fs, 5000)
        \<and> writeRecords e fs recs nid = (Inl LockTimeout, after_waits e 50 fs))"
proof (intro conjI impI)
  assume "k < 50 \<and> (\<forall>j<k. conflict e fs j) \<and> lock_fault e k = None
      \<and> lock_file (after_waits e k fs) = None"
  then show "acquire e l fs =
      (Inr (), l\<lparr>isLocked := True\<rparr>, (after_waits e k fs)\<lparr>lock_file := Some (pid e)\<rparr>, k * 100)"
    using acquire_success [of k e fs l] by (simp add: maxRetries_def retryDelay_def)
next
  assume a: "\<forall>j<50. conflict e fs j"
  then have b: "\<forall>j<maxRetries. conflict e fs j" by (simp add: maxRetries_def)
  show "acquire e l fs = (Inl LockTimeout, l, after_waits e 50 fs, 5000)"
    using acquire_timeout [OF b, of l] by (simp add: maxRetries_def retryDelay_def)
  show "writeRecords e fs recs nid = (Inl LockTimeout, after_waits e 50 fs)"
    using writeRecords_timeout [OF b, of recs nid] by (simp add: maxRetries_def)
qed

theorem acquire_retries_then_times_out_witness:
  "((2::nat) < 50 \<and> conflict freed_later held_files 0 \<and> conflict freed_later held_files 1
      \<and> lock_fault freed_later 2 = None
      \<and> lock_file (after_waits freed_later 2 held_files) = None)
   \<and> acquire freed_later \<lparr> isLocked = False \<rparr> held_files =
       (Inr (), \<lparr> isLocked = True \<rparr>, \<lparr> lock_file = Some ''4711'', data_file = None \<rparr>, 200)
   \<and> conflict quiet held_files 0 \<and> conflict quiet held_files 49
   \<and> acquire quiet \<lparr> isLocked = False \<rparr> held_files =
       (Inl LockTimeout, \<lparr> isLocked = False \<rparr>, held_files, 5000)
   \<and> writeRecords quiet held_files [] (Num (Fin 1)) = (Inl LockTimeout, held_files)"
proof -
  have w2: "after_waits freed_later 2 held_files = \<lparr> lock_file = None, data_file = None \<rparr>"
    by (simp add: numeral_2_eq_2 freed_later_def quiet_def held_files_def)
  have c: "\<forall>j<2. conflict freed_later held_files j"
    by (simp add: less_Suc_eq numeral_2_eq_2 conflict_def freed_later_def quiet_def held_files_def)
  have h: "(2::nat) < 50 \<and> (\<forall>j<2. conflict freed_later held_files j)
      \<and> lock_fault freed_later 2 = None
      \<and> lock_file (after_waits freed_later 2 held_files) = None"
    using c w2 by (simp add: freed_later_def quiet_def)
  have q: "\<forall>j<50. conflict quiet held_files j"
    by (simp add: conflict_quiet_held)
  have pid: "pid freed_later = ''4711''"
    by (simp add: freed_later_def quiet_def)
  have c01: "conflict freed_later held_files 0 \<and> conflict freed_later held_files 1"
    using c by simp
  show ?thesis
    using h q w2 pid c01
      acquire_retries_then_times_out [of 2 freed_later held_files "\<lparr> isLocked = False \<rparr>"]
      acquire_retries_then_times_out [of 0 quiet held_files "\<lparr> isLocked = False \<rparr>" "[]" "Num (Fin 1)"]
    by (simp add: after_waits_quiet)
qed

text \<open>
  C4, as amended. \<open>release\<close> removes the marker only when this lock object holds the
  lock and the removal does not fail; the lock object is then unlocked and the data file
  is untouched. A lock object that does not hold the lock leaves everything as it is.
\<close>

theorem release_removes_own_marker:
  "(isLocked l \<and> unlink_fault e = None \<and> lock_file fs \<noteq> None \<longrightarrow>
      release e l fs = (l\<lparr>isLocked := False\<rparr>, fs\<lparr>lock_file := None\<rparr>))
   \<and> (\<not> isLocked l \<longrightarrow> release e l fs = (l, fs))"
  by (auto simp: release_def unlinkSync_def)

theorem release_removes_own_marker_witness:
  "(isLocked \<lparr> isLocked = True \<rparr> \<and> unlink_fault quiet = None \<and> lock_file held_files \<noteq> None)
   \<and> release quiet \<lparr> isLocked = True \<rparr> held_files = (\<lparr> isLocked = False \<rparr>, no_files)
   \<and> \<not> isLocked \<lparr> isLocked = False \<rparr>
   \<and> release quiet \<lparr> isLocked = False \<rparr> no_files = (\<lparr> isLocked = False \<rparr>, no_files)"
  using release_removes_own_marker [of "\<lparr> isLocked = True \<rparr>" quiet held_files]
    release_removes_own_marker [of "\<lparr> isLocked = False \<rparr>" quiet no_files]
  by (simp add: quiet_def held_files_def no_files_def)

text \<open>
  The claim as stated fails: a lock object that never took the lock leaves a marker
  that is present where it is.
\<close>

theorem release_keeps_foreign_marker:
  "lock_file (snd (release quiet \<lparr> isLocked = False \<rparr> held_files)) = Some ''99''"
  by (simp add: release_def held_files_def)

section \<open>Properties of RecordStore\<close>

lemma finite_nonneg_json: "finite_nonneg v \<Longrightarrow> json_num v = v"
  by (induction v rule: finite_nonneg.induct) simp_all

lemma positive_integer_json: "positive_integer v \<Longrightarrow> json_val v = v \<and> truthy v"
  by (induction v rule: positive_integer.induct) auto

lemma is_string_json: "is_string v \<Longrightarrow> json_val v = v"
  by (cases v) simp_all

lemma well_formed_json: "well_formed r \<Longrightarrow> json_record r = r"
  by (auto simp: well_formed_def json_record_def finite_nonneg_json positive_integer_json
      is_string_json)

lemma well_formed_map_json: "list_all well_formed recs \<Longrightarrow> map json_record recs = recs"
  by (induction recs) (simp_all add: well_formed_json)

lemma release_data_file: "data_file (snd (release e l fs)) = data_file fs"
  by (auto simp: release_def unlinkSync_def split: option.splits)

lemma writeRecords_success_document:
  assumes "writeRecords e fs recs nid = (Inr u, fs')"
  shows "data_file fs' = Some (stringify recs nid (now e))"
  using assms
  by (auto simp: writeRecords_def writeFileSync_def release_data_file
      split: prod.splits sum.splits option.splits)

lemma readRecords_document:
  "read_fault e = None \<Longrightarrow> data_file fs = Some (JsonDoc d) \<Longrightarrow>
   readRecords e fs =
     Inr \<lparr> records = (case doc_records d of None \<Rightarrow> [] | Some rs \<Rightarrow> rs),
           nextId = (if truthy (doc_nextId d) then doc_nextId d else Num (Fin 1)) \<rparr>"
  by (simp add: readRecords_def readRecords_try_def existsSync_def readFileSync_def
      JSON_parse_def parsed_fields_def)

lemma readRecords_total: "\<exists>st. readRecords e fs = Inr st"
  by (simp add: readRecords_def split: sum.splits option.splits)

lemma readRecords_fallback:
  "data_file fs = None \<or> read_fault e \<noteq> None \<or> data_file fs = Some Malformed
     \<or> data_file fs = Some JsonNull \<Longrightarrow> readRecords e fs = Inr empty_store"
  by (auto simp: readRecords_def readRecords_try_def existsSync_def readFileSync_def
      JSON_parse_def parsed_fields_def split: option.splits)

lemma writeRecords_acquired:
  assumes "k < maxRetries" "\<forall>j<k. conflict e fs j" "lock_fault e k = None"
    "lock_file (after_waits e k fs) = None" "unlink_fault e = None"
  shows "writeRecords e fs recs nid =
     (case write_fault e of
        None \<Rightarrow> (Inr (), (after_waits e k fs)\<lparr>data_file := Some (stringify recs nid (now e))\<rparr>)
      | Some code \<Rightarrow> (Inl (IOError code), after_waits e k fs))"
  using assms(4,5)
  by (simp add: writeRecords_def acquire_success [OF assms(1-4)] writeFileSync_def
      release_def unlinkSync_def split: option.splits)

lemma writeRecords_quiet:
  "lock_file fs = None \<Longrightarrow>
   writeRecords quiet fs recs nid = (Inr (), fs\<lparr>data_file := Some (stringify recs nid (now quiet))\<rparr>)"
  using writeRecords_acquired [of 0 quiet fs recs nid]
  by (simp add: maxRetries_def) (simp add: quiet_def)

text \<open>
  C2. For a valid store, a \<open>writeRecords\<close> that returns normally followed by a
  \<open>readRecords\<close> that can read the file gives back exactly the records and \<open>nextId\<close>
  that were written.
\<close>

theorem read_after_write_roundtrip:
  assumes "valid_store recs nid" and "writeRecords e fs recs nid = (Inr (), fs')"
    and "read_fault e' = None"
  shows "readRecords e' fs' = Inr \<lparr> records = recs, nextId = nid \<rparr>"
proof -
  have "data_file fs' = Some (stringify recs nid (now e))"
    using assms(2) by (rule writeRecords_success_document)
  moreover have "map json_record recs = recs" "json_val nid = nid" "truthy nid"
    using assms(1) by (simp_all add: valid_store_def well_formed_map_json positive_integer_json)
  ultimately show ?thesis
    using assms(3) by (simp add: readRecords_document stringify_def)
qed

theorem read_after_write_roundtrip_witness:
  "valid_store [alice] (Num (Fin 2))
   \<and> writeRecords quiet no_files [alice] (Num (Fin 2)) =
       (Inr (), no_files\<lparr>data_file := Some (stringify [alice] (Num (Fin 2)) (now quiet))\<rparr>)
   \<and> read_fault quiet = None
   \<and> readRecords quiet (no_files\<lparr>data_file := Some (stringify [alice] (Num (Fin 2)) (now quiet))\<rparr>)
       = Inr \<lparr> records = [alice], nextId = Num (Fin 2) \<rparr>"
proof -
  have v: "valid_store [alice] (Num (Fin 2))"
    by (simp add: valid_store_def well_formed_def alice_def)
  have w: "writeRecords quiet no_files [alice] (Num (Fin 2)) =
       (Inr (), no_files\<lparr>data_file := Some (stringify [alice] (Num (Fin 2)) (now quiet))\<rparr>)"
    by (rule writeRecords_quiet) (simp add: no_files_def)
  have r: "read_fault quiet = None"
    by (simp add: quiet_def)
  show ?thesis
    using v w r read_after_write_roundtrip [OF v w r] by simp
qed

text \<open>
  C5. \<open>readRecords\<close> never throws. When the data file is absent, cannot be read, does
  not parse, or parses to \<open>null\<close>, the result is the empty store. When the file parses to a document, a missing
  \<open>records\<close> gives the empty sequence and a missing \<open>nextId\<close> gives 1, and a field that is
  present is returned as it is.
\<close>

theorem readRecords_never_fails:
  "(\<exists>st. readRecords e fs = Inr st)
   \<and> (data_file fs = None \<or> read_fault e \<noteq> None \<or> data_file fs = Some Malformed
        \<or> data_file fs = Some JsonNull \<longrightarrow>
        readRecords e fs = Inr \<lparr> records = [], nextId = Num (Fin 1) \<rparr>)
   \<and> (read_fault e = None \<and> data_file fs = Some (JsonDoc d) \<longrightarrow>
        (\<exists>st. readRecords e fs = Inr st
           \<and> (doc_records d = None \<longrightarrow> records st = [])
           \<and> (doc_nextId d = Undefined \<longrightarrow> nextId st = Num (Fin 1))
           \<and> (\<forall>rs. doc_records d = Some rs \<longrightarrow> records st = rs)
           \<and> (truthy (doc_nextId d) \<longrightarrow> nextId st = doc_nextId d)))"
proof (intro conjI impI)
  show "\<exists>st. readRecords e fs = Inr st"
    by (rule readRecords_total)
next
  assume "data_file fs = None \<or> read_fault e \<noteq> None \<or> data_file fs = Some Malformed
        \<or> data_file fs = Some JsonNull"
  then show "readRecords e fs = Inr \<lparr> records = [], nextId = Num (Fin 1) \<rparr>"
    using readRecords_fallback [of fs e] by (auto simp: empty_store_def)
next
  assume "read_fault e = None \<and> data_file fs = Some (JsonDoc d)"
  then show "\<exists>st. readRecords e fs = Inr st
           \<and> (doc_records d = None \<longrightarrow> records st = [])
           \<and> (doc_nextId d = Undefined \<longrightarrow> nextId st = Num (Fin 1))
           \<and> (\<forall>rs. doc_records d = Some rs \<longrightarrow> records st = rs)
           \<and> (truthy (doc_nextId d) \<longrightarrow> nextId st = doc_nextId d)"
    by (simp add: readRecords_document)
qed

theorem readRecords_never_fails_witness:
  "readRecords quiet no_files = Inr \<lparr> records = [], nextId = Num (Fin 1) \<rparr>
   \<and> readRecords (quiet\<lparr> read_fault := Some ''EACCES'' \<rparr>) alice_files
       = Inr \<lparr> records = [], nextId = Num (Fin 1) \<rparr>
   \<and> readRecords quiet \<lparr> lock_file = None, data_file = Some Malformed \<rparr>
       = Inr \<lparr> records = [], nextId = Num (Fin 1) \<rparr>
   \<and> readRecords quiet \<lparr> lock_file = None, data_file = Some (JsonDoc
         \<lparr> doc_records = None, doc_nextId = Undefined, doc_lastUpdated = Undefined \<rparr>) \<rparr>
       = Inr \<lparr> records = [], nextId = Num (Fin 1) \<rparr>
   \<and> readRecords quiet alice_files = Inr \<lparr> records = [alice], nextId = Num (Fin 2) \<rparr>"
proof -
  have q: "read_fault quiet = None"
    by (simp add: quiet_def)
  show ?thesis
    using q readRecords_never_fails [of quiet no_files
        "\<lparr> doc_records = None, doc_nextId = Undefined, doc_lastUpdated = Undefined \<rparr>"]
      readRecords_never_fails [of "quiet\<lparr> read_fault := Some ''EACCES'' \<rparr>" alice_files
        "\<lparr> doc_records = None, doc_nextId = Undefined, doc_lastUpdated = Undefined \<rparr>"]
      readRecords_never_fails [of quiet "\<lparr> lock_file = None, data_file = Some Malformed \<rparr>"
        "\<lparr> doc_records = None, doc_nextId = Undefined, doc_lastUpdated = Undefined \<rparr>"]
      readRecords_never_fails [of quiet "\<lparr> lock_file = None, data_file = Some (JsonDoc
         \<lparr> doc_records = None, doc_nextId = Undefined, doc_lastUpdated = Undefined \<rparr>) \<rparr>"
         "\<lparr> doc_records = None, doc_nextId = Undefined, doc_lastUpdated = Undefined \<rparr>"]
      readRecords_never_fails [of quiet alice_files
         "\<lparr> doc_records = Some [alice], doc_nextId = Num (Fin 2),
            doc_lastUpdated = Str ''2024-04-30T09:00:00.000Z'' \<rparr>"]
    by (auto simp: no_files_def alice_files_def alice_doc_def)
qed



section \<open>Properties of append\<close>

lemma readRecords_current: "read_fault e = None \<Longrightarrow> readRecords e fs = Inr (current fs)"
proof -
  assume a: "read_fault e = None"
  have "readRecords e fs = readRecords quiet fs"
    using a by (simp add: readRecords_def readRecords_try_def readFileSync_def quiet_def)
  moreover obtain st where "readRecords quiet fs = Inr st"
    using readRecords_total by blast
  ultimately show ?thesis by (simp add: current_def)
qed







lemma current_stringify:
  "data_file fs = Some (stringify recs nid stamp) \<Longrightarrow>
   current fs = \<lparr> records = map json_record recs,
                  nextId = (if truthy (json_val nid) then json_val nid else Num (Fin 1)) \<rparr>"
  using readRecords_document [of quiet fs]
  by (simp add: current_def stringify_def) (simp add: quiet_def)








lemma faultless_acquire:
  "faultless e \<Longrightarrow> lock_file fs = None \<Longrightarrow>
   writeRecords e fs recs nid = (Inr (), fs\<lparr>data_file := Some (stringify recs nid (now e))\<rparr>)"
  using writeRecords_acquired [of 0 e fs recs nid]
  by (simp add: faultless_def maxRetries_def)

lemma append_record_faultless:
  assumes "read_fault e = None" and "faultless e" and "lock_file fs = None"
  shows "append_record e rq path fs =
     (Inr (new_record e rq path (nextId (current fs)),
           stored fs @ [new_record e rq path (nextId (current fs))]),
      fs\<lparr>data_file := Some (stringify (stored fs @ [new_record e rq path (nextId (current fs))])
                                  (plus_one (nextId (current fs))) (now e))\<rparr>)"
  by (simp add: append_record_def readRecords_current [OF assms(1)] Let_def stored_def
      faultless_acquire [OF assms(2,3)])


lemma stored_stringify:
  "data_file fs = Some (stringify recs nid stamp) \<Longrightarrow> stored fs = map json_record recs"
  by (simp add: stored_def current_stringify)










lemma quiet_ok: "undisturbed quiet" "faultless quiet" "read_fault quiet = None"
  by (simp_all add: undisturbed_def faultless_def quiet_def)




section \<open>Properties of the submission handler\<close>

lemma submit_record_accepted:
  assumes "all_truthy rq" and "file_path rq = Some path" and "read_fault e = None"
    and "faultless e" and "lock_file fs = None"
  shows "\<exists>d. submit_record e rq fs = (Submitted d, snd (append_record e rq path fs))
           \<and> label d = (if body_gender rq = Str ''male'' then Namseong else Yeoseong)
           \<and> totalParticipants d = Suc (length (stored fs))"
  using assms(1,2)
  by (simp add: submit_record_def all_truthy_def append_record_faultless [OF assms(3-5)] Let_def
      strict_eq_def)

text \<open>
  C10, as amended. The handler tests the five fields for truthiness. A submission with a
  falsy field (missing, the number 0, the empty string) is rejected as a missing field
  and the files are not touched, whatever else the request holds. A submission whose
  fields are all truthy and that carries a photo is accepted when nothing fails: the
  gender is compared with \<open>'male'\<close> only to choose the label, so every other value gets
  the female label; and a distance sent as the text \<open>"0"\<close> is truthy and is stored as the
  number 0.
\<close>

theorem validation_tests_truthiness:
  "(\<not> all_truthy rq \<longrightarrow> submit_record e rq fs = (MissingFields, fs))
   \<and> (body_bike rq = Num (Fin 0) \<or> body_bike rq = Str [] \<or> body_bike rq = Undefined \<longrightarrow>
        submit_record e rq fs = (MissingFields, fs))
   \<and> (all_truthy rq \<and> file_path rq = Some path \<and> read_fault e = None \<and> faultless e
        \<and> lock_file fs = None \<longrightarrow>
        (\<exists>d. fst (submit_record e rq fs) = Submitted d
           \<and> label d = (if body_gender rq = Str ''male'' then Namseong else Yeoseong))
        \<and> (body_bike rq = Str ''0'' \<longrightarrow>
             bike (last (stored (snd (submit_record e rq fs)))) = NumVal (Fin 0)))"
proof (intro conjI impI)
  assume "\<not> all_truthy rq"
  then show "submit_record e rq fs = (MissingFields, fs)"
    by (auto simp: submit_record_def all_truthy_def)
next
  assume "body_bike rq = Num (Fin 0) \<or> body_bike rq = Str [] \<or> body_bike rq = Undefined"
  then show "submit_record e rq fs = (MissingFields, fs)"
    by (auto simp: submit_record_def)
next
  assume a: "all_truthy rq \<and> file_path rq = Some path \<and> read_fault e = None \<and> faultless e
        \<and> lock_file fs = None"
  then obtain d where d: "submit_record e rq fs = (Submitted d, snd (append_record e rq path fs))"
    "label d = (if body_gender rq = Str ''male'' then Namseong else Yeoseong)"
    using submit_record_accepted [of rq path e fs] by blast
  then show "\<exists>d. fst (submit_record e rq fs) = Submitted d
           \<and> label d = (if body_gender rq = Str ''male'' then Namseong else Yeoseong)"
    by simp
  assume z: "body_bike rq = Str ''0''"
  have p: "parseFloat (Str ''0'') = Fin 0"
    by (simp add: parse_float_string_def read_unsigned_def
        is_space_def is_digit_def digits_val_def digit_val_def pow10_def read_exponent_def)
  have "stored (snd (append_record e rq path fs)) =
      map json_record (stored fs @ [new_record e rq path (nextId (current fs))])"
    using a by (simp add: append_record_faultless stored_stringify)
  then show "bike (last (stored (snd (submit_record e rq fs)))) = NumVal (Fin 0)"
    using z p by (simp add: d(1) new_record_def json_record_def)
qed

text \<open>
  The claim as stated fails where it says that a zero distance cannot be submitted: the
  text \<open>"0"\<close>, which is how a multipart form sends it, passes the test.
\<close>

theorem zero_distance_accepted:
  "fst (submit_record quiet zero_request no_files) =
     Submitted \<lparr> currentRank = 1, totalParticipants = 1, genderParticipants = 1, label = Namseong \<rparr>
   \<and> map bike (stored (snd (submit_record quiet zero_request no_files))) = [NumVal (Fin 0)]
   \<and> map totalDistance (stored (snd (submit_record quiet zero_request no_files)))
       = [NumVal (Fin (21 / 4))]"
proof -
  define r0 where "r0 = new_record quiet zero_request ''uploads/b.png'' (Num (Fin 1))"
  define fsz where "fsz = no_files\<lparr>data_file := Some (stringify [r0] (Num (Fin 2)) (now quiet))\<rparr>"
  have p: "parseFloat (Str ''0'') = Fin 0" "parseFloat (Str ''3'') = Fin 3"
    "parseFloat (Str ''2.25'') = Fin (9 / 4)"
    by (simp_all add: parse_float_string_def read_unsigned_def
        is_space_def is_digit_def digits_val_def digit_val_def pow10_def read_exponent_def)
  have l: "lock_file no_files = None" and s: "current no_files = empty_store"
    by (simp_all add: no_files_def current_def readRecords_def readRecords_try_def existsSync_def)
  have a: "append_record quiet zero_request ''uploads/b.png'' no_files = (Inr (r0, [r0]), fsz)"
    by (simp add: append_record_faultless [OF quiet_ok(3) quiet_ok(2) l] s stored_def
        empty_store_def r0_def fsz_def)
  have f: "file_path zero_request = Some ''uploads/b.png''" "truthy (body_name zero_request)"
    "truthy (body_gender zero_request)" "truthy (body_bike zero_request)"
    "truthy (body_treadmill zero_request)" "truthy (body_rowing zero_request)"
    "body_gender zero_request = Str ''male''"
    by (simp_all add: zero_request_def bob_request_def)
  have r: "rec_id r0 = Num (Fin 1)" "gender r0 = Str ''male''" "bike r0 = NumVal (Fin 0)"
    "totalDistance r0 = NumVal (Fin (21 / 4))"
    using p by (simp_all add: r0_def new_record_def zero_request_def bob_request_def)
  have sub: "submit_record quiet zero_request no_files =
      (Submitted \<lparr> currentRank = 1, totalParticipants = 1, genderParticipants = 1,
                   label = Namseong \<rparr>, fsz)"
    using f(2-6) by (simp add: submit_record_def f(1,7) a r js_sort_def strict_eq_def)
  have "stored fsz = [json_record r0]"
    using stored_stringify [of fsz "[r0]" "Num (Fin 2)" "now quiet"] by (simp add: fsz_def)
  then show ?thesis
    using r by (simp add: sub json_record_def)
qed

theorem validation_tests_truthiness_witness:
  "\<not> all_truthy (bob_request\<lparr> body_rowing := Num (Fin 0) \<rparr>)
   \<and> submit_record quiet (bob_request\<lparr> body_rowing := Num (Fin 0) \<rparr>) alice_files
       = (MissingFields, alice_files)
   \<and> submit_record quiet (bob_request\<lparr> body_bike := Str [] \<rparr>) alice_files
       = (MissingFields, alice_files)
   \<and> all_truthy (zero_request\<lparr> body_gender := Str ''other'' \<rparr>)
   \<and> label (case fst (submit_record quiet (zero_request\<lparr> body_gender := Str ''other'' \<rparr>) alice_files)
              of Submitted d \<Rightarrow> d) = Yeoseong
   \<and> bike (last (stored (snd (submit_record quiet (zero_request\<lparr> body_gender := Str ''other'' \<rparr>)
        alice_files)))) = NumVal (Fin 0)"
proof -
  let ?z = "zero_request\<lparr> body_gender := Str ''other'' \<rparr>"
  have h: "all_truthy ?z" "file_path ?z = Some ''uploads/b.png''" "lock_file alice_files = None"
    "body_gender ?z \<noteq> Str ''male''" "body_bike ?z = Str ''0''"
    by (simp_all add: all_truthy_def zero_request_def bob_request_def alice_files_def)
  have n: "\<not> all_truthy (bob_request\<lparr> body_rowing := Num (Fin 0) \<rparr>)"
    "body_bike (bob_request\<lparr> body_bike := Str [] \<rparr>) = Str []"
    by (simp_all add: all_truthy_def)
  show ?thesis
    using h n quiet_ok
      validation_tests_truthiness [of "bob_request\<lparr> body_rowing := Num (Fin 0) \<rparr>" quiet alice_files]
      validation_tests_truthiness [of "bob_request\<lparr> body_bike := Str [] \<rparr>" quiet alice_files]
      validation_tests_truthiness [of ?z quiet alice_files "''uploads/b.png''"]
    by auto
qed

section \<open>Properties of the rankings\<close>





















section \<open>Properties of concurrent appends\<close>

text \<open>
  A caller that runs alone, with nothing failing, does in four steps what
  \<open>append_record\<close> does.
\<close>

lemma solo_run:
  assumes "read_fault e = None" and "faultless e" and "lock_file fs = None"
  shows "run [0, 0, 0, 0] ([caller_of e rq path], fs) =
     ([(caller_of e rq path)\<lparr>c_pc := Finished (Inr (new_record e rq path (nextId (current fs))))\<rparr>],
      snd (append_record e rq path fs))"
proof -
  have f: "lock_fault e 0 = None" "write_fault e = None" "unlink_fault e = None"
    using assms(2) by (simp_all add: faultless_def)
  show ?thesis
    using assms(3)
    by (simp add: append_record_faultless [OF assms] step_def caller_of_def
        readRecords_current [OF assms(1)] Let_def maxRetries_def create_marker_def f
        writeFileSync_def release_def unlinkSync_def stored_def)
qed

text \<open>
  C1. The claim asks that read, id assignment, push and write of one append be
  indivisible with respect to other appends, so that two concurrent appends on an empty
  store leave two records with ids 1 and 2. In the handler only the write is under the
  lock: \<open>readRecords\<close> is called before \<open>writeRecords\<close> takes it. When both callers read
  before either writes, both assign id 1, both report success, and the second write
  replaces the first: the store ends with one record and \<open>nextId = 2\<close>.
\<close>

theorem lost_update:
  "results (run both_read_first (bob_and_carol, no_files)) =
     [Finished (Inr (new_record quiet bob_request ''uploads/b.png'' (Num (Fin 1)))),
      Finished (Inr (new_record quiet carol_request ''uploads/c.png'' (Num (Fin 1))))]
   \<and> map name (stored (snd (run both_read_first (bob_and_carol, no_files)))) = [Str ''Carol'']
   \<and> map rec_id (stored (snd (run both_read_first (bob_and_carol, no_files)))) = [Num (Fin 1)]
   \<and> nextId (current (snd (run both_read_first (bob_and_carol, no_files)))) = Num (Fin 2)"
  by code_simp

text \<open>
  The same two callers, one after the other, leave both records: the files are those of
  two sequential appends.
\<close>

lemma serial_run_keeps_both:
  "snd (run one_after_the_other (bob_and_carol, no_files)) = snd (append_many two_calls no_files)"
  by code_simp

lemma step_Start:
  "read_fault (c_env c) = None \<Longrightarrow> c_pc c = Start \<Longrightarrow>
   step c fs =
     (c\<lparr>c_pc := Acquiring 0 (new_record (c_env c) (c_request c) (c_path c) (nextId (current fs)))
          (stored fs @ [new_record (c_env c) (c_request c) (c_path c) (nextId (current fs))])
          (plus_one (nextId (current fs)))\<rparr>, fs)"
  by (simp add: step_def readRecords_current Let_def stored_def)

lemma step_Acquiring_free:
  "faultless (c_env c) \<Longrightarrow> c_pc c = Acquiring 0 r recs nid \<Longrightarrow> lock_file fs = None \<Longrightarrow>
   step c fs = (c\<lparr>c_pc := Writing r recs nid\<rparr>, fs\<lparr>lock_file := Some (pid (c_env c))\<rparr>)"
  by (simp add: step_def faultless_def maxRetries_def create_marker_def)

lemma step_Writing:
  "faultless (c_env c) \<Longrightarrow> c_pc c = Writing r recs nid \<Longrightarrow>
   step c fs = (c\<lparr>c_pc := Releasing True (Inr r)\<rparr>,
                fs\<lparr>data_file := Some (stringify recs nid (now (c_env c)))\<rparr>)"
  by (simp add: step_def faultless_def writeFileSync_def)

lemma step_Releasing:
  "faultless (c_env c) \<Longrightarrow> c_pc c = Releasing True res \<Longrightarrow> lock_file fs \<noteq> None \<Longrightarrow>
   step c fs = (c\<lparr>c_pc := Finished res\<rparr>, fs\<lparr>lock_file := None\<rparr>)"
  by (auto simp: step_def faultless_def release_def unlinkSync_def)

text \<open>
  The loss does not depend on the requests or on what the store held: whenever both
  callers read before either writes, the record of the first caller is not in the store.
\<close>

lemma both_read_first_loses_first:
  assumes "read_fault e1 = None" and "faultless e1" and "read_fault e2 = None" and "faultless e2"
    and "lock_file fs = None"
  shows "stored (snd (run both_read_first ([caller_of e1 rq1 p1, caller_of e2 rq2 p2], fs))) =
           map json_record (stored fs @ [new_record e2 rq2 p2 (nextId (current fs))])"
proof -
  let ?r1 = "new_record e1 rq1 p1 (nextId (current fs))"
  let ?r2 = "new_record e2 rq2 p2 (nextId (current fs))"
  let ?n = "plus_one (nextId (current fs))"
  have "snd (run both_read_first ([caller_of e1 rq1 p1, caller_of e2 rq2 p2], fs)) =
      fs\<lparr>lock_file := None, data_file := Some (stringify (stored fs @ [?r2]) ?n (now e2))\<rparr>"
    using assms
    by (simp add: both_read_first_def caller_of_def step_Start step_Acquiring_free step_Writing
        step_Releasing)
  then show ?thesis
    using stored_stringify [of _ "stored fs @ [?r2]" ?n "now e2"] by simp
qed

end
